theory Spec2Isabelle
  imports Main "HOL-Library.Sublist"
begin

section \<open>Confusion-matrix plotting script: the model\<close>

text \<open>
  The script \<^verbatim>\<open>plot_confusion_matrix.py\<close> has three functions:
  \<^verbatim>\<open>plot_confusion_matrix\<close> (read one CSV file, build the matrix, draw it, save the picture),
  \<^verbatim>\<open>plot_all_confusion_matrices\<close> (the same for every matching file below a directory,
  each file inside its own \<^verbatim>\<open>try\<close>) and \<^verbatim>\<open>main\<close> (choice of the mode from
  \<^verbatim>\<open>sys.argv\<close>).

  Everything the script itself computes is a definition below. What Python or a
  third-party package computes is a parameter: \<^verbatim>\<open>csv.reader\<close>, \<^verbatim>\<open>float\<close>,
  \<^verbatim>\<open>np.array\<close>, the drawing calls of seaborn and matplotlib, and the content that
  \<^verbatim>\<open>savefig\<close> writes are the fields of a record \<open>library\<close>, so every theorem holds for
  whatever these calls do. Three library rules that claims depend on are written out: how
  \<^verbatim>\<open>rglob\<close> matches names, which file \<^verbatim>\<open>savefig\<close> writes for a given path, and what
  \<^verbatim>\<open>np.array\<close> does with rows of unequal length. Paths are POSIX strings.
\<close>

subsection \<open>Exceptions\<close>

text \<open>
  An exception is a value. \<open>IndexError\<close> is raised by \<^verbatim>\<open>rows[0]\<close> and
  \<^verbatim>\<open>row[0]\<close> on an empty list, \<open>ValueError\<close> by \<^verbatim>\<open>float(x)\<close> (it carries the
  cell) and by \<^verbatim>\<open>np.array\<close> (it carries the message), \<open>FileNotFoundError\<close> by
  \<^verbatim>\<open>open\<close> and \<^verbatim>\<open>savefig\<close>; \<open>OtherError\<close> stands for whatever else the system or a
  library call raises.
\<close>

datatype py_error =
    IndexError
  | ValueError string
  | FileNotFoundError string
  | OtherError string

subsection \<open>The loader (lines 29 to 37 of the script)\<close>

text \<open>
  The three local variables \<^verbatim>\<open>class_labels\<close>, \<^verbatim>\<open>row_labels\<close> and \<^verbatim>\<open>matrix\<close>
  at the end of the loop, \<^verbatim>\<open>matrix\<close> being the nested list handed to
  \<^verbatim>\<open>np.array\<close>.
\<close>

record 'v confusion_matrix =
  class_labels :: "string list"
  row_labels :: "string list"
  matrix :: "'v list list"

text \<open>
  \<^verbatim>\<open>[float(x) for x in cells]\<close>: the cells are converted from left to right and the
  first cell that \<^verbatim>\<open>float\<close> refuses raises.
\<close>

fun float_cells :: "(string \<Rightarrow> 'v option) \<Rightarrow> string list \<Rightarrow> py_error + 'v list" where
  "float_cells pyfloat [] = Inr []"
| "float_cells pyfloat (x # xs) =
     (case pyfloat x of
        None \<Rightarrow> Inl (ValueError x)
      | Some v \<Rightarrow>
          (case float_cells pyfloat xs of
             Inl e \<Rightarrow> Inl e
           | Inr vs \<Rightarrow> Inr (v # vs)))"

text \<open>
  The loop \<^verbatim>\<open>for row in rows[1:]\<close> with its two accumulators:
  \<^verbatim>\<open>row_labels.append(row[0])\<close>, then
  \<^verbatim>\<open>matrix.append([float(x) for x in row[1:]])\<close>.
\<close>

fun parse_rows ::
  "(string \<Rightarrow> 'v option) \<Rightarrow> string list \<Rightarrow> 'v list list \<Rightarrow> string list list
     \<Rightarrow> py_error + (string list \<times> 'v list list)" where
  "parse_rows pyfloat labels m [] = Inr (labels, m)"
| "parse_rows pyfloat labels m (row # rest) =
     (case row of
        [] \<Rightarrow> Inl IndexError
      | label # cells \<Rightarrow>
          (case float_cells pyfloat cells of
             Inl e \<Rightarrow> Inl e
           | Inr vs \<Rightarrow> parse_rows pyfloat (labels @ [label]) (m @ [vs]) rest))"

text \<open>
  \<^verbatim>\<open>class_labels = rows[0][1:]\<close> and the loop. The slice \<^verbatim>\<open>[1:]\<close> never raises
  (\<open>drop 1\<close>); the index \<^verbatim>\<open>rows[0]\<close> raises when there is no row.
\<close>

definition load_matrix ::
  "(string \<Rightarrow> 'v option) \<Rightarrow> string list list \<Rightarrow> py_error + 'v confusion_matrix" where
  "load_matrix pyfloat rows =
     (case rows of
        [] \<Rightarrow> Inl IndexError
      | header # data \<Rightarrow>
          (case parse_rows pyfloat [] [] data of
             Inl e \<Rightarrow> Inl e
           | Inr (labels, m) \<Rightarrow>
               Inr \<lparr>class_labels = drop 1 header, row_labels = labels, matrix = m\<rparr>))"

text \<open>
  A well-formed input with \<open>R\<close> data rows and \<open>C\<close> value columns: a header of a corner
  cell and \<open>C\<close> column labels, then \<open>R\<close> rows of a row label and \<open>C\<close> numeric cells.
\<close>

definition well_formed ::
  "(string \<Rightarrow> 'v option) \<Rightarrow> nat \<Rightarrow> nat \<Rightarrow> string list list \<Rightarrow> bool" where
  "well_formed pyfloat R C rows =
     (case rows of
        [] \<Rightarrow> False
      | header # data \<Rightarrow>
          length header = C + 1 \<and> length data = R \<and>
          list_all (\<lambda>row. length row = C + 1 \<and>
                          list_all (\<lambda>x. pyfloat x \<noteq> None) (drop 1 row)) data)"

subsection \<open>The array (line 39)\<close>

text \<open>
  \<^verbatim>\<open>np.array(matrix)\<close> on a list of lists of numbers, as numpy does from version 1.24 on:
  rows of one length give the array (no row at all gives the empty array), rows of unequal
  length raise \<open>ValueError\<close>.
\<close>

definition np_array :: "'v list list \<Rightarrow> py_error + 'v list list" where
  "np_array m =
     (if list_all (\<lambda>r. length r = length (hd m)) m then Inr m
      else Inl (ValueError ''inhomogeneous shape''))"

text \<open>
  Lines 29 to 39 together: the labels, the loop, then the array constructor of the library
  on the nested list. The result is what line 45 receives: column labels, row labels, array.
\<close>

definition load_confusion_matrix ::
  "('v list list \<Rightarrow> py_error + 'arr) \<Rightarrow> (string \<Rightarrow> 'v option) \<Rightarrow> string list list
     \<Rightarrow> py_error + (string list \<times> string list \<times> 'arr)" where
  "load_confusion_matrix nparray pyfloat rows =
     (case load_matrix pyfloat rows of
        Inl e \<Rightarrow> Inl e
      | Inr cm \<Rightarrow>
          (case nparray (matrix cm) of
             Inl e \<Rightarrow> Inl e
           | Inr a \<Rightarrow> Inr (class_labels cm, row_labels cm, a)))"

subsection \<open>Reading plain CSV text\<close>

text \<open>
  What \<^verbatim>\<open>list(csv.reader(f))\<close> yields on text with no quote character and no carriage
  return: one row for each line, an empty line giving the empty row, the cells of any other
  line being the pieces between its commas. A line break at the very end of the text starts
  no further line. \<open>split_on\<close> is \<^verbatim>\<open>str.split(sep)\<close>.
\<close>

fun split_on :: "char \<Rightarrow> string \<Rightarrow> string list" where
  "split_on sep [] = [[]]"
| "split_on sep (c # cs) =
     (let ws = split_on sep cs
      in if c = sep then [] # ws else (c # hd ws) # tl ws)"

definition file_lines :: "string \<Rightarrow> string list" where
  "file_lines content =
     (let ls = split_on (CHR 0x0A) content
      in if last ls = [] then butlast ls else ls)"

definition csv_reader_plain :: "string \<Rightarrow> string list list" where
  "csv_reader_plain content =
     map (\<lambda>l. if l = [] then [] else split_on (CHR '','') l) (file_lines content)"

text \<open>
  \<^verbatim>\<open>float\<close> on a string of decimal digits is the number they denote. This much of
  \<^verbatim>\<open>float\<close> instantiates the parameter in the examples; it refuses every other
  string, which Python does not.
\<close>

fun digit_literal :: "string \<Rightarrow> nat option" where
  "digit_literal s =
     (if s \<noteq> [] \<and> list_all (\<lambda>c. c \<in> set ''0123456789'') s
      then Some (foldl (\<lambda>n c. 10 * n + (of_char c - 48 :: nat)) 0 s) else None)"

subsection \<open>The default output path (line 56)\<close>

text \<open>
  \<^verbatim>\<open>s.replace(old, new)\<close>: every occurrence of \<open>old\<close> is replaced, scanning from the
  left and continuing after each replaced occurrence. With an empty \<open>old\<close> Python puts
  \<open>new\<close> before every character and at the end.
\<close>

function str_replace :: "string \<Rightarrow> string \<Rightarrow> string \<Rightarrow> string" where
  "str_replace old new s =
     (if old = [] then new @ concat (map (\<lambda>c. c # new) s)
      else if s = [] then []
      else if prefix old s then new @ str_replace old new (drop (length old) s)
      else hd s # str_replace old new (tl s))"
  by pat_completeness auto
termination
  by (relation "measure (\<lambda>(old, new, s). length s)") auto

declare str_replace.simps [simp del]

text \<open>\<^verbatim>\<open>str(csv_file).replace('.csv', '.png')\<close>\<close>

definition default_output_file :: "string \<Rightarrow> string" where
  "default_output_file csv_file = str_replace ''.csv'' ''.png'' csv_file"

subsection \<open>The file that savefig writes (line 58)\<close>

text \<open>
  \<^verbatim>\<open>plt.savefig(name)\<close> takes the format from the extension of the name. When the name has
  none, matplotlib takes its default format and writes to
  \<^verbatim>\<open>name.rstrip('.') + '.png'\<close> instead of the name it was given. \<open>format_of\<close> is
  \<^verbatim>\<open>os.path.splitext(name)[1][1:]\<close>: what follows the last dot of the last path component,
  when something other than dots stands before that dot in the component.
\<close>

definition basename :: "string \<Rightarrow> string" where
  "basename p = rev (takeWhile (\<lambda>c. c \<noteq> CHR ''/'') (rev p))"

definition format_of :: "string \<Rightarrow> string" where
  "format_of p =
     (let name = basename p;
          ext = rev (takeWhile (\<lambda>c. c \<noteq> CHR ''.'') (rev name));
          stem = take (length name - length ext - 1) name
      in if CHR ''.'' \<in> set name \<and> list_ex (\<lambda>c. c \<noteq> CHR ''.'') stem then ext else [])"

definition rstrip :: "char \<Rightarrow> string \<Rightarrow> string" where
  "rstrip c s = rev (dropWhile (\<lambda>x. x = c) (rev s))"

definition savefig_path :: "string \<Rightarrow> string" where
  "savefig_path p = (if format_of p = [] then rstrip (CHR ''.'') p @ ''.png'' else p)"

subsection \<open>Finding the files (line 70)\<close>

text \<open>
  \<^verbatim>\<open>Path(directory).rglob(pattern)\<close> matches the name of every entry below the
  directory against the pattern, as \<^verbatim>\<open>fnmatch\<close> does: \<open>*\<close> stands for any run of
  characters, \<open>?\<close> for any one character, every other character for itself (bracket
  classes are left out: the script's pattern has none). Names are compared exactly, as
  on a POSIX system.
\<close>

fun fnmatch :: "string \<Rightarrow> string \<Rightarrow> bool" where
  "fnmatch [] [] = True"
| "fnmatch [] (c # cs) = False"
| "fnmatch (p # ps) [] = (p = CHR ''*'' \<and> fnmatch ps [])"
| "fnmatch (p # ps) (c # cs) =
     (if p = CHR ''*'' then fnmatch ps (c # cs) \<or> fnmatch (p # ps) cs
      else if p = CHR ''?'' then fnmatch ps cs
      else p = c \<and> fnmatch ps cs)"

text \<open>
  A directory is the list of its entries, in the order the operating system lists them.
\<close>

datatype entry = File string | Dir string "entry list"

fun entry_name :: "entry \<Rightarrow> string" where
  "entry_name (File name) = name"
| "entry_name (Dir name children) = name"

text \<open>
  \<^verbatim>\<open>str(Path(d) / name)\<close>, for a directory written without redundant separators or dot
  segments.
\<close>

definition path_join :: "string \<Rightarrow> string \<Rightarrow> string" where
  "path_join d name =
     (if d = [] \<or> d = ''.'' then name
      else if last d = CHR ''/'' then d @ name
      else d @ ''/'' @ name)"

text \<open>
  The matching entries of the directory itself, then those of each subdirectory in turn.
  Links and unreadable directories are not modelled.
\<close>

fun rglob :: "string \<Rightarrow> string \<Rightarrow> entry list \<Rightarrow> string list" where
  "rglob pattern d entries =
     map (\<lambda>e. path_join d (entry_name e))
       (filter (\<lambda>e. fnmatch pattern (entry_name e)) entries)
     @ concat (map (\<lambda>e. case e of
                            File name \<Rightarrow> []
                          | Dir name children \<Rightarrow> rglob pattern (path_join d name) children)
                 entries)"

declare rglob.simps [simp del]

text \<open>
  Every entry below a directory, at any depth, with its path: the entries of the directory
  itself, then those below each subdirectory in turn.
\<close>

fun entries_below :: "string \<Rightarrow> entry list \<Rightarrow> (string \<times> entry) list" where
  "entries_below d entries =
     map (\<lambda>e. (path_join d (entry_name e), e)) entries
     @ concat (map (\<lambda>e. case e of
                            File name \<Rightarrow> []
                          | Dir name children \<Rightarrow> entries_below (path_join d name) children)
                 entries)"

declare entries_below.simps [simp del]

subsection \<open>The world: files, directories, standard output\<close>

text \<open>
  Each \<^verbatim>\<open>print\<close> of the script is one message:
  \<open>Saved p\<close> for "Saved confusion matrix image: p",
  \<open>NoFilesFound d\<close> for "No confusion matrix CSV files found in d",
  \<open>FoundFiles n\<close> for "Found n confusion matrix file(s)",
  \<open>ErrorProcessing p e\<close> for "Error processing p: e",
  \<open>Usage\<close> for the usage text and
  \<open>InvalidPath p\<close> for "Error: p is not a valid file or directory".
\<close>

datatype message =
    Saved string
  | NoFilesFound string
  | FoundFiles nat
  | ErrorProcessing string py_error
  | Usage
  | InvalidPath string

text \<open>
  \<open>files\<close> gives the content of every path that \<^verbatim>\<open>open\<close> can read, \<open>open_error\<close> the
  exception that \<^verbatim>\<open>open\<close> raises on any other path (no such file, a directory, no
  permission), \<open>dirs\<close> the entries of every path that is a directory. \<open>files\<close> and
  \<open>dirs\<close> are independent, so a listed file that cannot be opened is covered.
\<close>

record world =
  files :: "string \<rightharpoonup> string"
  open_error :: "string \<Rightarrow> py_error"
  dirs :: "string \<rightharpoonup> entry list"
  stdout :: "message list"

text \<open>
  The library calls of the script. \<open>csv_reader\<close> is \<^verbatim>\<open>list(csv.reader(f))\<close> on the
  content of the file, \<open>float\<close> the conversion of a cell, \<open>array\<close> is \<^verbatim>\<open>np.array\<close>,
  \<open>heatmap\<close> lines 42 to 52 (the figure, the heat map of the array with the column and
  row labels, the axis labels) and \<open>savefig\<close> the content that line 58 writes when called
  with the given path. Each may raise. Whether \<open>savefig\<close> raises is taken to depend on
  the figure and the path only: the script creates and removes no directory.
\<close>

record ('v, 'arr, 'fig) library =
  csv_reader :: "string \<Rightarrow> py_error + string list list"
  float :: "string \<Rightarrow> 'v option"
  array :: "'v list list \<Rightarrow> py_error + 'arr"
  heatmap :: "'arr \<Rightarrow> string list \<Rightarrow> string list \<Rightarrow> py_error + 'fig"
  savefig :: "'fig \<Rightarrow> string \<Rightarrow> py_error + string"

subsection \<open>The three functions of the script\<close>

text \<open>
  An exception leaves the world as it was: nothing is written or printed before line 58.
  Line 58 is called with \<open>out\<close> and writes the file \<open>savefig_path out\<close>; line 59 prints
  \<open>out\<close>.
\<close>

definition plot_confusion_matrix ::
  "('v, 'arr, 'fig) library \<Rightarrow> world \<Rightarrow> string \<Rightarrow> string option \<Rightarrow> py_error + world" where
  "plot_confusion_matrix lib w csv_file output_file =
     (case files w csv_file of
        None \<Rightarrow> Inl (open_error w csv_file)
      | Some content \<Rightarrow>
          (case csv_reader lib content of
             Inl e \<Rightarrow> Inl e
           | Inr rows \<Rightarrow>
               (case load_confusion_matrix (array lib) (float lib) rows of
                  Inl e \<Rightarrow> Inl e
                | Inr (xlabels, ylabels, a) \<Rightarrow>
                    (case heatmap lib a xlabels ylabels of
                       Inl e \<Rightarrow> Inl e
                     | Inr fig \<Rightarrow>
                         (let out = (case output_file of
                                       None \<Rightarrow> default_output_file csv_file
                                     | Some given \<Rightarrow> given)
                          in case savefig lib fig out of
                               Inl e \<Rightarrow> Inl e
                             | Inr png \<Rightarrow>
                                 Inr (w\<lparr>files := (files w)(savefig_path out \<mapsto> png),
                                        stdout := stdout w @ [Saved out]\<rparr>))))))"

text \<open>
  The same function in two steps, for the proofs: the path that line 58 is called with,
  and the content written as a function of the content of the CSV file.
\<close>

definition picture ::
  "('v, 'arr, 'fig) library \<Rightarrow> string \<Rightarrow> string \<Rightarrow> py_error + string" where
  "picture lib content out =
     (case csv_reader lib content of
        Inl e \<Rightarrow> Inl e
      | Inr rows \<Rightarrow>
          (case load_confusion_matrix (array lib) (float lib) rows of
             Inl e \<Rightarrow> Inl e
           | Inr (xlabels, ylabels, a) \<Rightarrow>
               (case heatmap lib a xlabels ylabels of
                  Inl e \<Rightarrow> Inl e
                | Inr fig \<Rightarrow> savefig lib fig out)))"

definition output_path :: "string \<Rightarrow> string option \<Rightarrow> string" where
  "output_path csv_file output_file =
     (case output_file of None \<Rightarrow> default_output_file csv_file | Some given \<Rightarrow> given)"


text \<open>
  The loop of lines 78 to 82: \<^verbatim>\<open>except Exception as e\<close> prints the path and the
  exception, and the loop goes on.
\<close>

fun plot_each :: "('v, 'arr, 'fig) library \<Rightarrow> world \<Rightarrow> string list \<Rightarrow> world" where
  "plot_each lib w [] = w"
| "plot_each lib w (csv_file # rest) =
     (case plot_confusion_matrix lib w csv_file None of
        Inr w' \<Rightarrow> plot_each lib w' rest
      | Inl e \<Rightarrow>
          plot_each lib (w\<lparr>stdout := stdout w @ [ErrorProcessing csv_file e]\<rparr>) rest)"


text \<open>
  \<^verbatim>\<open>list(Path(directory).rglob('*confusion_matrix.csv'))\<close>; a path that is no directory
  has no matches.
\<close>

definition csv_files_of :: "world \<Rightarrow> string \<Rightarrow> string list" where
  "csv_files_of w directory =
     (case dirs w directory of
        None \<Rightarrow> []
      | Some entries \<Rightarrow> rglob ''*confusion_matrix.csv'' directory entries)"

definition plot_all_confusion_matrices ::
  "('v, 'arr, 'fig) library \<Rightarrow> world \<Rightarrow> string \<Rightarrow> world" where
  "plot_all_confusion_matrices lib w directory =
     (let csv_files = csv_files_of w directory
      in if csv_files = [] then w\<lparr>stdout := stdout w @ [NoFilesFound directory]\<rparr>
         else plot_each lib
                (w\<lparr>stdout := stdout w @ [FoundFiles (length csv_files)]\<rparr>) csv_files)"

definition isfile :: "world \<Rightarrow> string \<Rightarrow> bool" where
  "isfile w path = (files w path \<noteq> None)"

definition isdir :: "world \<Rightarrow> string \<Rightarrow> bool" where
  "isdir w path = (dirs w path \<noteq> None)"

text \<open>
  \<^verbatim>\<open>main\<close> returns the world and the exit status of the process: 1 after
  \<^verbatim>\<open>sys.exit(1)\<close> and after an exception that nothing catches, 0 when it returns.
\<close>

definition main :: "('v, 'arr, 'fig) library \<Rightarrow> world \<Rightarrow> string list \<Rightarrow> world \<times> nat" where
  "main lib w argv =
     (if length argv < 2 then (w\<lparr>stdout := stdout w @ [Usage]\<rparr>, 1)
      else
        let path = argv ! 1
        in if isfile w path then
             (let output_file = (if length argv > 2 then Some (argv ! 2) else None)
              in case plot_confusion_matrix lib w path output_file of
                   Inl e \<Rightarrow> (w, 1)
                 | Inr w' \<Rightarrow> (w', 0))
           else if isdir w path then (plot_all_confusion_matrices lib w path, 0)
           else (w\<lparr>stdout := stdout w @ [InvalidPath path]\<rparr>, 1))"

text \<open>
  A library for the examples: plain CSV text, cells of decimal digits, the array constructor
  above, a figure that is the array itself and a picture with fixed content.
\<close>

definition example_library :: "(nat, nat list list, nat list list) library" where
  "example_library =
     \<lparr>csv_reader = (\<lambda>content. Inr (csv_reader_plain content)),
      float = digit_literal,
      array = np_array,
      heatmap = (\<lambda>a xlabels ylabels. Inr a),
      savefig = (\<lambda>fig out. Inr ''PNG'')\<rparr>"



section \<open>The loader\<close>

subsection \<open>One row of cells\<close>

lemma float_cells_Inr_iff:
  "float_cells pf xs = Inr vs \<longleftrightarrow> map pf xs = map Some vs"
proof (induction xs arbitrary: vs)
  case Nil
  show ?case by auto
next
  case (Cons x xs)
  show ?case
  proof (cases "pf x")
    case None
    then show ?thesis by (cases vs) auto
  next
    case (Some v)
    show ?thesis
    proof (cases "float_cells pf xs")
      case (Inl e)
      with Some Cons.IH show ?thesis by (cases vs) auto
    next
      case (Inr ws)
      with Some Cons.IH show ?thesis by (cases vs) auto
    qed
  qed
qed

lemma float_cells_Inl:
  "float_cells pf xs = Inl e \<Longrightarrow> \<exists>x \<in> set xs. e = ValueError x \<and> pf x = None"
  by (induction xs arbitrary: e) (auto split: option.splits sum.splits)

lemma float_cells_isl_iff:
  "isl (float_cells pf xs) \<longleftrightarrow> (\<exists>x \<in> set xs. pf x = None)"
  by (induction xs) (auto split: option.splits sum.splits)

subsection \<open>The loop over the data rows\<close>

lemma parse_rows_Inr_iff:
  "parse_rows pf ls m rows = Inr (ls', m') \<longleftrightarrow>
     [] \<notin> set rows \<and> ls' = ls @ map hd rows \<and>
     (\<exists>vss. m' = m @ vss \<and> map (map Some) vss = map (\<lambda>row. map pf (drop 1 row)) rows)"
proof (induction rows arbitrary: ls m)
  case Nil
  show ?case by auto
next
  case (Cons row rows)
  show ?case
  proof (cases row)
    case Nil
    then show ?thesis by simp
  next
    case (Cons label cells)
    note row = this
    show ?thesis
    proof (cases "float_cells pf cells")
      case (Inl e)
      then have "\<And>vs. map Some vs \<noteq> map pf cells"
        by (metis float_cells_Inr_iff sum.distinct(1))
      with Inl row show ?thesis
        by (auto simp: map_eq_Cons_conv)
    next
      case (Inr vs)
      then have vs: "map pf cells = map Some vs"
        by (simp add: float_cells_Inr_iff)
      show ?thesis
        using Inr row vs Cons.IH[of "ls @ [label]" "m @ [vs]"]
        by (auto simp: map_eq_Cons_conv)
    qed
  qed
qed

lemma parse_rows_Inl:
  "parse_rows pf ls m rows = Inl e \<Longrightarrow>
     (e = IndexError \<and> [] \<in> set rows) \<or>
     (\<exists>row \<in> set rows. \<exists>x \<in> set (drop 1 row). e = ValueError x \<and> pf x = None)"
proof (induction rows arbitrary: ls m)
  case Nil
  then show ?case by simp
next
  case (Cons row rows)
  show ?case
  proof (cases row)
    case Nil
    with Cons.prems show ?thesis by simp
  next
    case (Cons label cells)
    show ?thesis
    proof (cases "float_cells pf cells")
      case (Inl e')
      with Cons Cons.prems have "e' = e" by simp
      with Inl float_cells_Inl[of pf cells e] Cons show ?thesis by auto
    next
      case (Inr vs)
      with Cons Cons.prems
      have "parse_rows pf (ls @ [label]) (m @ [vs]) rows = Inl e" by simp
      from Cons.IH[OF this] show ?thesis by auto
    qed
  qed
qed

lemma parse_rows_isl_iff:
  "isl (parse_rows pf ls m rows) \<longleftrightarrow>
     (\<exists>row \<in> set rows. row = [] \<or> (\<exists>x \<in> set (drop 1 row). pf x = None))"
proof (induction rows arbitrary: ls m)
  case Nil
  show ?case by simp
next
  case (Cons row rows)
  show ?case
  proof (cases row)
    case Nil
    then show ?thesis by simp
  next
    case (Cons label cells)
    note row = this
    show ?thesis
    proof (cases "float_cells pf cells")
      case (Inl e)
      then have "isl (float_cells pf cells)" by simp
      then have "\<exists>x \<in> set cells. pf x = None"
        by (simp add: float_cells_isl_iff)
      with Inl row show ?thesis by auto
    next
      case (Inr vs)
      then have "\<not> isl (float_cells pf cells)" by simp
      then have "\<forall>x \<in> set cells. pf x \<noteq> None"
        by (simp add: float_cells_isl_iff)
      with Inr row Cons.IH[of "ls @ [label]" "m @ [vs]"] show ?thesis by auto
    qed
  qed
qed

lemma parse_rows_IndexError:
  assumes "[] \<in> set rows"
    and "\<forall>row \<in> set rows. \<forall>x \<in> set (drop 1 row). pf x \<noteq> None"
  shows "parse_rows pf ls m rows = Inl IndexError"
proof -
  from assms have "isl (parse_rows pf ls m rows)"
    unfolding parse_rows_isl_iff by blast
  then obtain e where e: "parse_rows pf ls m rows = Inl e"
    by (cases "parse_rows pf ls m rows") auto
  from parse_rows_Inl[OF e] assms(2) show ?thesis using e by auto
qed

subsection \<open>The loader as a whole\<close>

lemma load_matrix_Inr_iff:
  "load_matrix pf rows = Inr cm \<longleftrightarrow>
     rows \<noteq> [] \<and> [] \<notin> set (drop 1 rows) \<and>
     class_labels cm = drop 1 (hd rows) \<and>
     row_labels cm = map hd (drop 1 rows) \<and>
     map (map Some) (matrix cm) = map (\<lambda>row. map pf (drop 1 row)) (drop 1 rows)"
proof (cases rows)
  case Nil
  then show ?thesis by (simp add: load_matrix_def)
next
  case (Cons header data)
  show ?thesis
  proof (cases "parse_rows pf [] [] data")
    case (Inl e)
    then have "\<And>ls m. parse_rows pf [] [] data \<noteq> Inr (ls, m)" by simp
    then have "\<not> ([] \<notin> set data \<and> row_labels cm = map hd data \<and>
        map (map Some) (matrix cm) = map (\<lambda>row. map pf (drop 1 row)) data)"
      unfolding parse_rows_Inr_iff by simp
    with Inl Cons show ?thesis by (auto simp: load_matrix_def)
  next
    case (Inr r)
    obtain ls m where r: "r = (ls, m)" by (cases r)
    from Inr r have *: "[] \<notin> set data" "ls = map hd data"
      "map (map Some) m = map (\<lambda>row. map pf (drop 1 row)) data"
      by (simp_all add: parse_rows_Inr_iff)
    have inj: "\<And>m'. map (map Some) m' = map (map Some) m \<longleftrightarrow> m' = m"
      by (simp add: inj_map_eq_map)
    show ?thesis
      using Inr r Cons * inj[of "matrix cm"]
      by (cases cm) (auto simp: load_matrix_def)
  qed
qed

lemma load_matrix_isl_iff:
  "isl (load_matrix pf rows) \<longleftrightarrow>
     rows = [] \<or>
     (\<exists>row \<in> set (drop 1 rows). row = [] \<or> (\<exists>x \<in> set (drop 1 row). pf x = None))"
proof (cases rows)
  case Nil
  then show ?thesis by (simp add: load_matrix_def)
next
  case (Cons header data)
  then have "isl (load_matrix pf rows) = isl (parse_rows pf [] [] data)"
    by (cases "parse_rows pf [] [] data") (auto simp: load_matrix_def)
  with Cons show ?thesis
    by (simp add: parse_rows_isl_iff)
qed

lemma load_matrix_Inl:
  assumes "load_matrix pf rows = Inl e"
  shows "(e = IndexError \<and> (rows = [] \<or> [] \<in> set (drop 1 rows))) \<or>
     (\<exists>row \<in> set (drop 1 rows). \<exists>x \<in> set (drop 1 row). e = ValueError x \<and> pf x = None)"
proof (cases rows)
  case Nil
  with assms show ?thesis by (simp add: load_matrix_def)
next
  case (Cons header data)
  with assms have "parse_rows pf [] [] data = Inl e"
    by (auto simp: load_matrix_def split: sum.splits)
  from parse_rows_Inl[OF this] Cons show ?thesis by simp
qed

text \<open>
  Claim C1, as the code has it. The loader raises when a value cell of a data row is not
  numeric or when the input has no row at all: \<open>IndexError\<close> for the missing row,
  \<open>ValueError\<close> for the cell (or \<open>IndexError\<close>, when an empty data row comes first). No
  matrix is returned on such an input.
\<close>

theorem load_fails_on_bad_cell_or_no_rows:
  assumes "rows = [] \<or> (\<exists>row \<in> set (drop 1 rows). \<exists>x \<in> set (drop 1 row). pf x = None)"
  shows "\<exists>e. load_matrix pf rows = Inl e \<and> (e = IndexError \<or> (\<exists>x. e = ValueError x))"
proof -
  from assms have "isl (load_matrix pf rows)"
    unfolding load_matrix_isl_iff by blast
  then obtain e where e: "load_matrix pf rows = Inl e"
    by (cases "load_matrix pf rows") auto
  from load_matrix_Inl[OF e] e show ?thesis by auto
qed

theorem load_fails_on_bad_cell_or_no_rows_witness:
  "digit_literal ''q'' = None \<and>
   load_matrix digit_literal [['''', ''A''], [''X'', ''q'']] = Inl (ValueError ''q'')"
  using load_fails_on_bad_cell_or_no_rows[of "[['''', ''A''], [''X'', ''q'']]" digit_literal]
  by (simp add: load_matrix_def)

text \<open>
  Claim C1 as stated also promises an error for every input of fewer than two rows. An
  input of exactly one row, the header, has fewer than two rows and loads: the loop body
  never runs, and the result has the column labels, no row label and the empty matrix.
\<close>

theorem header_only_input_loads:
  "length [['''', ''A'', ''B'']] < 2 \<and>
   load_matrix digit_literal [['''', ''A'', ''B'']]
     = Inr \<lparr>class_labels = [''A'', ''B''], row_labels = [], matrix = []\<rparr>"
  by (simp add: load_matrix_def)

text \<open>
  Claim C2. The loader succeeds exactly on a nonempty list of rows whose data rows are
  all nonempty and whose value cells all convert; the column labels are then the cells of
  the first row but its first, the row labels the first cells of the later rows, and the
  matrix the converted remaining cells, row by row. On the text of the example, whose
  rows are read as plain CSV, the result has column labels A, B, row labels X, Y and the
  matrix of the values of 2, 3 and of 4, 5.
\<close>

theorem load_matrix_contract:
  "(load_matrix pf rows = Inr cm \<longleftrightarrow>
      rows \<noteq> [] \<and> [] \<notin> set (drop 1 rows) \<and>
      class_labels cm = drop 1 (hd rows) \<and>
      row_labels cm = map hd (drop 1 rows) \<and>
      map (map Some) (matrix cm) = map (\<lambda>row. map pf (drop 1 row)) (drop 1 rows))
   \<and> (pf ''2'' = Some a \<and> pf ''3'' = Some b \<and> pf ''4'' = Some c \<and> pf ''5'' = Some d \<longrightarrow>
        load_matrix pf (csv_reader_plain '',A,B\<newline>X,2,3\<newline>Y,4,5'')
          = Inr \<lparr>class_labels = [''A'', ''B''], row_labels = [''X'', ''Y''],
                 matrix = [[a, b], [c, d]]\<rparr>)"
proof (intro conjI impI)
  show "load_matrix pf rows = Inr cm \<longleftrightarrow>
      rows \<noteq> [] \<and> [] \<notin> set (drop 1 rows) \<and>
      class_labels cm = drop 1 (hd rows) \<and>
      row_labels cm = map hd (drop 1 rows) \<and>
      map (map Some) (matrix cm) = map (\<lambda>row. map pf (drop 1 row)) (drop 1 rows)"
    by (rule load_matrix_Inr_iff)
next
  have rows: "csv_reader_plain '',A,B\<newline>X,2,3\<newline>Y,4,5''
      = [['''', ''A'', ''B''], [''X'', ''2'', ''3''], [''Y'', ''4'', ''5'']]"
    by (simp add: csv_reader_plain_def file_lines_def Let_def)
  assume "pf ''2'' = Some a \<and> pf ''3'' = Some b \<and> pf ''4'' = Some c \<and> pf ''5'' = Some d"
  then show "load_matrix pf (csv_reader_plain '',A,B\<newline>X,2,3\<newline>Y,4,5'')
          = Inr \<lparr>class_labels = [''A'', ''B''], row_labels = [''X'', ''Y''],
                 matrix = [[a, b], [c, d]]\<rparr>"
    by (simp add: rows load_matrix_def)
qed

theorem load_matrix_contract_witness:
  "digit_literal ''2'' = Some 2 \<and> digit_literal ''3'' = Some 3 \<and>
   digit_literal ''4'' = Some 4 \<and> digit_literal ''5'' = Some 5 \<and>
   load_matrix digit_literal (csv_reader_plain '',A,B\<newline>X,2,3\<newline>Y,4,5'')
     = Inr \<lparr>class_labels = [''A'', ''B''], row_labels = [''X'', ''Y''],
            matrix = [[2, 3], [4, 5]]\<rparr> \<and>
   load_matrix digit_literal [['''', ''P''], [''Q'', ''7'']]
     = Inr \<lparr>class_labels = [''P''], row_labels = [''Q''], matrix = [[7]]\<rparr>"
  using load_matrix_contract[of digit_literal "[['''', ''P''], [''Q'', ''7'']]"
      "\<lparr>class_labels = [''P''], row_labels = [''Q''], matrix = [[7]]\<rparr>" 2 3 4 5]
  by simp

text \<open>
  Claim C3. A well-formed input with \<open>R\<close> data rows and \<open>C\<close> value columns loads, and the
  result has \<open>R\<close> row labels, \<open>C\<close> column labels and a matrix of \<open>R\<close> rows of \<open>C\<close> values
  each. (The matrix is the nested list that the script hands to the array constructor.)
\<close>

theorem well_formed_dimensions:
  assumes wf: "well_formed pf R C rows"
  shows "\<exists>cm. load_matrix pf rows = Inr cm \<and>
          length (row_labels cm) = R \<and> length (class_labels cm) = C \<and>
          length (matrix cm) = R \<and> (\<forall>r \<in> set (matrix cm). length r = C)"
proof -
  from wf obtain header data where rows: "rows = header # data"
    by (cases rows) (auto simp: well_formed_def)
  with wf have h: "length header = C + 1" and d: "length data = R"
    and cells: "\<forall>row \<in> set data. length row = C + 1 \<and> (\<forall>x \<in> set (drop 1 row). pf x \<noteq> None)"
    by (auto simp: well_formed_def list_all_iff)
  from cells rows have "\<not> isl (load_matrix pf rows)"
    unfolding load_matrix_isl_iff by auto
  then obtain cm where cm: "load_matrix pf rows = Inr cm"
    by (cases "load_matrix pf rows") auto
  then have rl: "row_labels cm = map hd data" and cl: "class_labels cm = drop 1 header"
    and m: "map (map Some) (matrix cm) = map (\<lambda>row. map pf (drop 1 row)) data"
    using rows by (simp_all add: load_matrix_Inr_iff)
  from m have len: "length (matrix cm) = length data"
    by (metis length_map)
  have "length r = C" if "r \<in> set (matrix cm)" for r
  proof -
    from that obtain i where i: "i < length (matrix cm)" "r = matrix cm ! i"
      by (auto simp: in_set_conv_nth)
    with len have "map (map Some) (matrix cm) ! i = map Some r" by simp
    moreover from i len
    have "map (\<lambda>row. map pf (drop 1 row)) data ! i = map pf (drop 1 (data ! i))"
      by simp
    ultimately have "map Some r = map pf (drop 1 (data ! i))" using m by simp
    then have "length r = length (drop 1 (data ! i))" by (metis length_map)
    moreover from i len cells have "length (data ! i) = C + 1" by simp
    ultimately show ?thesis by simp
  qed
  with cm rl cl h d len show ?thesis by auto
qed

theorem well_formed_dimensions_witness:
  "well_formed digit_literal 2 2
     [['''', ''A'', ''B''], [''X'', ''2'', ''3''], [''Y'', ''4'', ''5'']] \<and>
   (\<exists>cm. load_matrix digit_literal
           [['''', ''A'', ''B''], [''X'', ''2'', ''3''], [''Y'', ''4'', ''5'']] = Inr cm \<and>
      length (row_labels cm) = 2 \<and> length (class_labels cm) = 2 \<and> length (matrix cm) = 2)"
proof -
  have wf: "well_formed digit_literal 2 2
      [['''', ''A'', ''B''], [''X'', ''2'', ''3''], [''Y'', ''4'', ''5'']]"
    by (simp add: well_formed_def)
  from well_formed_dimensions[OF wf] wf show ?thesis by blast
qed

lemma np_array_ragged:
  assumes "r1 \<in> set m" and "r2 \<in> set m" and "length r1 \<noteq> length r2"
  shows "np_array m = Inl (ValueError ''inhomogeneous shape'')"
proof -
  have "\<not> list_all (\<lambda>r. length r = length (hd m)) m"
  proof
    assume "list_all (\<lambda>r. length r = length (hd m)) m"
    with assms(1,2) have "length r1 = length (hd m)" "length r2 = length (hd m)"
      by (auto simp: list_all_iff)
    with assms(3) show False by simp
  qed
  then show ?thesis by (simp add: np_array_def)
qed

text \<open>
  Claim C9, as the code has it. The script checks no shape itself: when every data row has
  at least its label cell and every value cell converts, the loop of lines 33 to 37 finishes
  whatever the numbers of value cells are, each row of the nested list having as many values
  as its data row has value cells; data rows of different numbers of value cells give rows
  of different lengths. Line 39 then hands the nested list to the array constructor, which
  alone decides the outcome of the load; numpy (from 1.24 on) raises \<open>ValueError\<close> on
  rows of different lengths, so such an input does not load.
\<close>

theorem ragged_rows_pass_loop_fail_array:
  assumes rows: "rows = header # data" and ne: "[] \<notin> set data"
    and cells: "\<forall>row \<in> set data. \<forall>x \<in> set (drop 1 row). pf x \<noteq> None"
    and r: "row1 \<in> set data" "row2 \<in> set data" "length (drop 1 row1) \<noteq> length (drop 1 row2)"
  shows "\<exists>cm. load_matrix pf rows = Inr cm \<and>
          map length (matrix cm) = map (\<lambda>row. length (drop 1 row)) data \<and>
          (\<exists>r1 \<in> set (matrix cm). \<exists>r2 \<in> set (matrix cm). length r1 \<noteq> length r2) \<and>
          load_confusion_matrix nparray pf rows
            = (case nparray (matrix cm) of
                 Inl e \<Rightarrow> Inl e
               | Inr a \<Rightarrow> Inr (class_labels cm, row_labels cm, a)) \<and>
          load_confusion_matrix np_array pf rows = Inl (ValueError ''inhomogeneous shape'')"
proof -
  from rows ne cells have "\<not> isl (load_matrix pf rows)"
    unfolding load_matrix_isl_iff by auto
  then obtain cm where cm: "load_matrix pf rows = Inr cm"
    by (cases "load_matrix pf rows") auto
  with rows have m: "map (map Some) (matrix cm) = map (\<lambda>row. map pf (drop 1 row)) data"
    by (simp add: load_matrix_Inr_iff)
  then have "map length (map (map Some) (matrix cm))
      = map length (map (\<lambda>row. map pf (drop 1 row)) data)"
    by simp
  then have lens: "map length (matrix cm) = map (\<lambda>row. length (drop 1 row)) data"
    by (simp add: comp_def)
  from r(1) have "length (drop 1 row1) \<in> set (map length (matrix cm))"
    unfolding lens by auto
  then obtain r1 where r1: "r1 \<in> set (matrix cm)" "length r1 = length (drop 1 row1)"
    by auto
  from r(2) have "length (drop 1 row2) \<in> set (map length (matrix cm))"
    unfolding lens by auto
  then obtain r2 where r2: "r2 \<in> set (matrix cm)" "length r2 = length (drop 1 row2)"
    by auto
  from r1 r2 r(3) have ne12: "length r1 \<noteq> length r2" by simp
  with r1(1) r2(1)
  have uneq: "\<exists>r1 \<in> set (matrix cm). \<exists>r2 \<in> set (matrix cm). length r1 \<noteq> length r2"
    by blast
  have gen: "load_confusion_matrix nparray pf rows
      = (case nparray (matrix cm) of
           Inl e \<Rightarrow> Inl e
         | Inr a \<Rightarrow> Inr (class_labels cm, row_labels cm, a))" for nparray :: "'a list list \<Rightarrow> py_error + 'c"
    by (simp add: load_confusion_matrix_def cm)
  from np_array_ragged[OF r1(1) r2(1) ne12]
  have "load_confusion_matrix np_array pf rows = Inl (ValueError ''inhomogeneous shape'')"
    by (simp add: load_confusion_matrix_def cm)
  with cm lens uneq gen show ?thesis by blast
qed

theorem ragged_rows_pass_loop_fail_array_witness:
  "load_matrix digit_literal [['''', ''A''], [''X'', ''1'', ''2''], [''Y'', ''3'']]
     = Inr \<lparr>class_labels = [''A''], row_labels = [''X'', ''Y''], matrix = [[1, 2], [3]]\<rparr> \<and>
   load_confusion_matrix np_array digit_literal [['''', ''A''], [''X'', ''1'', ''2''], [''Y'', ''3'']]
     = Inl (ValueError ''inhomogeneous shape'')"
proof -
  let ?data = "[[''X'', ''1'', ''2''], [''Y'', ''3'']]"
  have lm: "load_matrix digit_literal (['''', ''A''] # ?data)
      = Inr \<lparr>class_labels = [''A''], row_labels = [''X'', ''Y''], matrix = [[1, 2], [3]]\<rparr>"
    by (simp add: load_matrix_def)
  have h: "[] \<notin> set ?data"
    "\<forall>row \<in> set ?data. \<forall>x \<in> set (drop 1 row). digit_literal x \<noteq> None"
    "[''X'', ''1'', ''2''] \<in> set ?data" "[''Y'', ''3''] \<in> set ?data"
    "length (drop 1 [''X'', ''1'', ''2'']) \<noteq> length (drop 1 [''Y'', ''3''])"
    by simp_all
  from ragged_rows_pass_loop_fail_array[OF refl h, of "['''', ''A'']" np_array]
  have "load_confusion_matrix np_array digit_literal (['''', ''A''] # ?data)
      = Inl (ValueError ''inhomogeneous shape'')"
    by blast
  with lm show ?thesis by simp
qed

text \<open>
  Claim C9 as stated says that every input whose data rows differ in their number of value
  cells, all of them numeric, loads without error. The first input below is one, each data
  row with its label: the loop finishes and line 39 raises \<open>ValueError\<close>. The second is
  one with a data row that has no cell at all (an empty line of the file): the loop itself
  raises \<open>IndexError\<close>, at \<^verbatim>\<open>row[0]\<close>.
\<close>

theorem ragged_input_fails_to_load:
  "list_all (\<lambda>row. list_all (\<lambda>x. digit_literal x \<noteq> None) (drop 1 row))
     [[''X'', ''1'', ''2''], [''Y'', ''3'']] \<and>
   length (drop 1 [''X'', ''1'', ''2'']) \<noteq> length (drop 1 [''Y'', ''3'']) \<and>
   load_confusion_matrix np_array digit_literal
     [['''', ''A''], [''X'', ''1'', ''2''], [''Y'', ''3'']]
     = Inl (ValueError ''inhomogeneous shape'') \<and>
   load_matrix digit_literal [['''', ''A''], [''X'', ''1''], []] = Inl IndexError"
  by (simp add: load_confusion_matrix_def load_matrix_def np_array_def)

text \<open>
  Claim C10. The two indexings of the loader are safe exactly when there is a first row
  and no data row is empty. With no row at all the loader raises \<open>IndexError\<close>; with an
  empty data row it returns no matrix, and raises \<open>IndexError\<close> when the value cells are
  numeric (a cell that is not numeric in an earlier row raises first). With a first row
  and no empty data row it never raises \<open>IndexError\<close>.
\<close>

theorem load_index_error:
  "(rows = [] \<longrightarrow> load_matrix pf rows = Inl IndexError) \<and>
   ([] \<in> set (drop 1 rows) \<longrightarrow> isl (load_matrix pf rows)) \<and>
   ([] \<in> set (drop 1 rows) \<and>
    (\<forall>row \<in> set (drop 1 rows). \<forall>x \<in> set (drop 1 row). pf x \<noteq> None)
      \<longrightarrow> load_matrix pf rows = Inl IndexError) \<and>
   (rows \<noteq> [] \<and> [] \<notin> set (drop 1 rows) \<longrightarrow> load_matrix pf rows \<noteq> Inl IndexError)"
proof (intro conjI impI)
  assume "rows = []"
  then show "load_matrix pf rows = Inl IndexError" by (simp add: load_matrix_def)
next
  assume "[] \<in> set (drop 1 rows)"
  then show "isl (load_matrix pf rows)"
    unfolding load_matrix_isl_iff by blast
next
  assume a: "[] \<in> set (drop 1 rows) \<and>
    (\<forall>row \<in> set (drop 1 rows). \<forall>x \<in> set (drop 1 row). pf x \<noteq> None)"
  then obtain header data where rows: "rows = header # data" by (cases rows) auto
  with a have "parse_rows pf [] [] data = Inl IndexError"
    by (intro parse_rows_IndexError) auto
  with rows show "load_matrix pf rows = Inl IndexError" by (simp add: load_matrix_def)
next
  assume a: "rows \<noteq> [] \<and> [] \<notin> set (drop 1 rows)"
  show "load_matrix pf rows \<noteq> Inl IndexError"
  proof
    assume "load_matrix pf rows = Inl IndexError"
    from load_matrix_Inl[OF this] a show False by auto
  qed
qed

theorem load_index_error_witness:
  "load_matrix digit_literal [] = Inl IndexError \<and>
   load_matrix digit_literal [['''', ''A''], [''X'', ''1''], []] = Inl IndexError \<and>
   load_matrix digit_literal [['''', ''A''], [''X'', ''1'']] \<noteq> Inl IndexError"
  using load_index_error[of "[]" digit_literal]
    load_index_error[of "[['''', ''A''], [''X'', ''1''], []]" digit_literal]
    load_index_error[of "[['''', ''A''], [''X'', ''1'']]" digit_literal]
  by simp

section \<open>The default output path\<close>

lemma replace_csv_Nil: "str_replace ''.csv'' ''.png'' [] = []"
  by (simp add: str_replace.simps)

lemma replace_csv_prefix:
  "prefix ''.csv'' s \<Longrightarrow>
     str_replace ''.csv'' ''.png'' s = ''.png'' @ str_replace ''.csv'' ''.png'' (drop 4 s)"
  by (subst str_replace.simps) (auto simp: eval_nat_numeral)

lemma replace_csv_Cons:
  "\<not> prefix ''.csv'' (c # cs) \<Longrightarrow>
     str_replace ''.csv'' ''.png'' (c # cs) = c # str_replace ''.csv'' ''.png'' cs"
  by (subst str_replace.simps) auto

lemma replace_csv_induct [case_names Nil Match Skip]:
  assumes "P []"
    and "\<And>s. prefix ''.csv'' s \<Longrightarrow> P (drop 4 s) \<Longrightarrow> P s"
    and "\<And>c cs. \<not> prefix ''.csv'' (c # cs) \<Longrightarrow> P cs \<Longrightarrow> P (c # cs)"
  shows "P s"
proof (induction s rule: length_induct)
  case (1 s)
  show ?case
  proof (cases "prefix ''.csv'' s")
    case True
    then have "length (drop 4 s) < length s" by (auto simp: prefix_def)
    with 1 have "P (drop 4 s)" by blast
    with True assms(2) show ?thesis by blast
  next
    case False
    show ?thesis
    proof (cases s)
      case Nil
      with assms(1) show ?thesis by simp
    next
      case (Cons c cs)
      with 1 have "P cs" by simp
      with False Cons assms(3) show ?thesis by blast
    qed
  qed
qed

lemma replace_csv_without_p:
  "CHR ''p'' \<notin> set (str_replace ''.csv'' ''.png'' s) \<Longrightarrow> str_replace ''.csv'' ''.png'' s = s"
proof (induction s rule: replace_csv_induct)
  case Nil
  show ?case by (rule replace_csv_Nil)
next
  case (Match s)
  from Match.prems Match.hyps show ?case by (simp add: replace_csv_prefix)
next
  case (Skip c cs)
  then show ?case by (simp add: replace_csv_Cons)
qed

lemma replace_csv_not_csv:
  "\<not> suffix ''.csv'' (str_replace ''.csv'' ''.png'' s)"
proof (induction s rule: replace_csv_induct)
  case Nil
  show ?case by (simp add: replace_csv_Nil)
next
  case (Match s)
  then show ?case by (simp add: replace_csv_prefix suffix_Cons)
next
  case (Skip c cs)
  show ?case
  proof
    assume "suffix ''.csv'' (str_replace ''.csv'' ''.png'' (c # cs))"
    then have "suffix ''.csv'' (c # str_replace ''.csv'' ''.png'' cs)"
      by (simp only: replace_csv_Cons[OF Skip.hyps])
    then have "''.csv'' = c # str_replace ''.csv'' ''.png'' cs
        \<or> suffix ''.csv'' (str_replace ''.csv'' ''.png'' cs)"
      by (simp only: suffix_Cons)
    with Skip.IH have "''.csv'' = c # str_replace ''.csv'' ''.png'' cs" by blast
    then have c: "c = CHR ''.''" and r: "str_replace ''.csv'' ''.png'' cs = ''csv''"
      by (metis list.inject)+
    from r have "CHR ''p'' \<notin> set (str_replace ''.csv'' ''.png'' cs)" by simp
    then have "str_replace ''.csv'' ''.png'' cs = cs" by (rule replace_csv_without_p)
    with r c have "c # cs = ''.csv''" by simp
    with Skip.hyps show False by simp
  qed
qed

text \<open>
  Where the path ends with \<^verbatim>\<open>.csv\<close> and has no other occurrence of it, line 56 does swap
  the extension.
\<close>

lemma prefix_csv_append:
  assumes "prefix ''.csv'' (stem @ ''.csv'')" and "stem \<noteq> []"
  shows "prefix ''.csv'' stem"
proof -
  from assms(1) consider "prefix ''.csv'' stem"
    | us where "''.csv'' = stem @ us" "prefix us ''.csv''"
    by (auto simp: prefix_append)
  then show ?thesis
  proof cases
    case 1
    then show ?thesis .
  next
    case 2
    from 2(1) assms(2) obtain cs where stem: "stem = CHR ''.'' # cs" and cs: "''csv'' = cs @ us"
      by (cases stem) auto
    have "set us \<subseteq> set (cs @ us)" by simp
    with cs have "set us \<subseteq> set ''csv''" by simp
    then have "CHR ''.'' \<notin> set us" by auto
    with 2(2) have "us = []"
      by (cases us) (auto simp: prefix_Cons)
    with 2(1) show ?thesis by simp
  qed
qed

lemma default_output_file_plain:
  assumes "\<not> (\<exists>u v. stem = u @ ''.csv'' @ v)"
  shows "default_output_file (stem @ ''.csv'') = stem @ ''.png''"
  using assms
proof (induction stem)
  case Nil
  show ?case by (simp add: default_output_file_def str_replace.simps)
next
  case (Cons c cs)
  have "\<not> prefix ''.csv'' (c # cs)"
  proof
    assume "prefix ''.csv'' (c # cs)"
    then obtain v where "c # cs = ''.csv'' @ v" by (auto simp: prefix_def)
    then have "c # cs = [] @ ''.csv'' @ v" by simp
    with Cons.prems show False by blast
  qed
  with prefix_csv_append[of "c # cs"] have np: "\<not> prefix ''.csv'' (c # cs @ ''.csv'')"
    by auto
  have "\<not> (\<exists>u v. cs = u @ ''.csv'' @ v)"
  proof
    assume "\<exists>u v. cs = u @ ''.csv'' @ v"
    then obtain u v where "cs = u @ ''.csv'' @ v" by blast
    then have "c # cs = (c # u) @ ''.csv'' @ v" by simp
    with Cons.prems show False by blast
  qed
  from Cons.IH[OF this] replace_csv_Cons[OF np] show ?case
    by (simp add: default_output_file_def)
qed

section \<open>Finding the files\<close>

lemma fnmatch_literal:
  "\<forall>c \<in> set lit. c \<noteq> CHR ''*'' \<and> c \<noteq> CHR ''?'' \<Longrightarrow> fnmatch lit s \<longleftrightarrow> s = lit"
proof (induction lit arbitrary: s)
  case Nil
  show ?case by (cases s) auto
next
  case (Cons p ps)
  then show ?case by (cases s) auto
qed

lemma fnmatch_star_literal:
  assumes "\<forall>c \<in> set lit. c \<noteq> CHR ''*'' \<and> c \<noteq> CHR ''?''"
  shows "fnmatch (CHR ''*'' # lit) s \<longleftrightarrow> suffix lit s"
proof (induction s)
  case Nil
  from assms show ?case by (auto simp: fnmatch_literal)
next
  case (Cons c cs)
  from assms have "fnmatch lit (c # cs) \<longleftrightarrow> c # cs = lit" by (rule fnmatch_literal)
  with Cons show ?case by (auto simp: suffix_Cons)
qed

lemma fnmatch_pattern:
  "fnmatch ''*confusion_matrix.csv'' name \<longleftrightarrow> suffix ''confusion_matrix.csv'' name"
proof -
  have "fnmatch (CHR ''*'' # ''confusion_matrix.csv'') name \<longleftrightarrow> suffix ''confusion_matrix.csv'' name"
    by (rule fnmatch_star_literal) simp
  then show ?thesis by simp
qed

lemma rglob_eq_filter:
  "rglob pattern d entries =
     map fst (filter (\<lambda>(p, e). fnmatch pattern (entry_name e)) (entries_below d entries))"
proof (induction pattern d entries rule: rglob.induct)
  case (1 pattern d entries)
  have sub: "(case e of File name \<Rightarrow> [] | Dir name children \<Rightarrow> rglob pattern (path_join d name) children)
      = map fst (filter (\<lambda>(p, e). fnmatch pattern (entry_name e))
          (case e of File name \<Rightarrow> [] | Dir name children \<Rightarrow> entries_below (path_join d name) children))"
    if "e \<in> set entries" for e
  proof (cases e)
    case (File name)
    then show ?thesis by simp
  next
    case (Dir name children)
    with that 1[of e name children] show ?thesis by simp
  qed
  show ?case
    apply (subst rglob.simps)
    apply (subst entries_below.simps)
    apply (simp add: filter_map comp_def filter_concat map_concat sub cong: map_cong)
    done
qed





lemma default_output_file_not_csv: "\<not> suffix ''.csv'' (default_output_file f)"
  by (simp add: default_output_file_def replace_csv_not_csv)

section \<open>One file\<close>

lemma plot_confusion_matrix_eq:
  "plot_confusion_matrix lib w f out =
     (case files w f of
        None \<Rightarrow> Inl (open_error w f)
      | Some content \<Rightarrow>
          (case picture lib content (output_path f out) of
             Inl e \<Rightarrow> Inl e
           | Inr png \<Rightarrow>
               Inr (w\<lparr>files := (files w)(savefig_path (output_path f out) \<mapsto> png),
                      stdout := stdout w @ [Saved (output_path f out)]\<rparr>)))"
  unfolding plot_confusion_matrix_def picture_def output_path_def Let_def
  by (simp split: option.split sum.split prod.split)

lemma output_path_None [simp]: "output_path f None = default_output_file f"
  by (simp add: output_path_def)

lemma output_path_Some [simp]: "output_path f (Some given) = given"
  by (simp add: output_path_def)

lemma plot_confusion_matrix_Inr:
  assumes "plot_confusion_matrix lib w f out = Inr w'"
  shows "\<exists>content png. files w f = Some content \<and>
           picture lib content (output_path f out) = Inr png \<and>
           w' = w\<lparr>files := (files w)(savefig_path (output_path f out) \<mapsto> png),
                  stdout := stdout w @ [Saved (output_path f out)]\<rparr>"
proof (cases "files w f")
  case None
  with assms show ?thesis by (simp add: plot_confusion_matrix_eq)
next
  case (Some content)
  show ?thesis
  proof (cases "picture lib content (output_path f out)")
    case (Inl e)
    with Some assms show ?thesis by (simp add: plot_confusion_matrix_eq)
  next
    case (Inr png)
    with Some assms show ?thesis by (simp add: plot_confusion_matrix_eq)
  qed
qed



section \<open>The file that savefig writes\<close>


lemma savefig_path_not_csv:
  assumes "\<not> suffix ''.csv'' p"
  shows "\<not> suffix ''.csv'' (savefig_path p)"
proof (cases "format_of p = []")
  case True
  have "\<not> suffix ''.csv'' (xs @ ''.png'')" for xs
  proof
    assume "suffix ''.csv'' (xs @ ''.png'')"
    then obtain ys where "xs @ ''.png'' = ys @ ''.csv''" by (auto simp: suffix_def)
    then have "last (xs @ ''.png'') = last (ys @ ''.csv'')" by simp
    then show False by simp
  qed
  with True show ?thesis by (simp add: savefig_path_def)
next
  case False
  with assms show ?thesis by (simp add: savefig_path_def)
qed

lemma target_not_csv: "\<not> suffix ''.csv'' (savefig_path (default_output_file f))"
  by (intro savefig_path_not_csv default_output_file_not_csv)


section \<open>The batch loop\<close>

lemma plot_each_csv_unchanged:
  "suffix ''.csv'' g \<Longrightarrow> files (plot_each lib w fs) g = files w g"
proof (induction fs arbitrary: w)
  case Nil
  show ?case by simp
next
  case (Cons f fs)
  show ?case
  proof (cases "plot_confusion_matrix lib w f None")
    case (Inl e)
    with Cons show ?thesis by simp
  next
    case (Inr w')
    from plot_confusion_matrix_Inr[OF Inr] obtain png where
      w': "w' = w\<lparr>files := (files w)(savefig_path (default_output_file f) \<mapsto> png),
                    stdout := stdout w @ [Saved (default_output_file f)]\<rparr>"
      by auto
    from Cons.prems target_not_csv[of f] have "g \<noteq> savefig_path (default_output_file f)"
      by auto
    then have "files w' g = files w g" by (simp add: w')
    with Inr Cons show ?thesis by simp
  qed
qed

lemma plot_each_dirs: "dirs (plot_each lib w fs) = dirs w"
proof (induction fs arbitrary: w)
  case Nil
  show ?case by simp
next
  case (Cons f fs)
  show ?case
  proof (cases "plot_confusion_matrix lib w f None")
    case (Inl e)
    with Cons show ?thesis by simp
  next
    case (Inr w')
    from plot_confusion_matrix_Inr[OF Inr] have "dirs w' = dirs w" by auto
    with Inr Cons show ?thesis by simp
  qed
qed




lemma plot_each_only_writes:
  assumes "files (plot_each lib w fs) p \<noteq> files w p"
  shows "\<exists>f \<in> set fs. p = savefig_path (default_output_file f)"
  using assms
proof (induction fs arbitrary: w)
  case Nil
  then show ?case by simp
next
  case (Cons g fs)
  show ?case
  proof (cases "plot_confusion_matrix lib w g None")
    case (Inl e)
    with Cons.prems
    have "files (plot_each lib (w\<lparr>stdout := stdout w @ [ErrorProcessing g e]\<rparr>) fs) p
        \<noteq> files (w\<lparr>stdout := stdout w @ [ErrorProcessing g e]\<rparr>) p"
      by simp
    from Cons.IH[OF this] show ?thesis by auto
  next
    case (Inr w')
    from plot_confusion_matrix_Inr[OF Inr] obtain png where
      w': "w' = w\<lparr>files := (files w)(savefig_path (default_output_file g) \<mapsto> png),
                    stdout := stdout w @ [Saved (default_output_file g)]\<rparr>"
      by auto
    show ?thesis
    proof (cases "p = savefig_path (default_output_file g)")
      case True
      then show ?thesis by simp
    next
      case False
      then have "files w' p = files w p" by (simp add: w')
      with Cons.prems Inr have "files (plot_each lib w' fs) p \<noteq> files w' p" by simp
      from Cons.IH[OF this] show ?thesis by auto
    qed
  qed
qed


section \<open>The claims about paths, search and modes\<close>

text \<open>
  Claim C4 says that the default output path is the input path with its trailing extension
  replaced. Line 56 replaces every occurrence of \<^verbatim>\<open>.csv\<close> in the whole path instead, and
  replaces nothing when the extension is another one: a directory name that contains
  \<^verbatim>\<open>.csv\<close> is rewritten as well, and a file \<^verbatim>\<open>matrix.txt\<close> is its own output path.
\<close>

theorem default_output_file_replaces_every_csv:
  "default_output_file ''runs.csv.d/confusion_matrix.csv'' = ''runs.png.d/confusion_matrix.png'' \<and>
   default_output_file ''matrix.txt'' = ''matrix.txt''"
  by (simp add: default_output_file_def str_replace.simps)

lemma csv_files_of_eq:
  "dirs w directory = Some entries \<Longrightarrow>
     csv_files_of w directory
       = map fst (filter (\<lambda>(p, e). suffix ''confusion_matrix.csv'' (entry_name e))
           (entries_below directory entries))"
  by (simp only: csv_files_of_def option.case rglob_eq_filter fnmatch_pattern)

text \<open>
  Claim C8. The files that line 70 selects in a directory, and that the batch function then
  processes (or reports as none), are the paths of exactly those entries below the
  directory, at any depth, whose name ends with \<^verbatim>\<open>confusion_matrix.csv\<close>, in the order of
  the walk. In the example \<^verbatim>\<open>my_confusion_matrix.csv\<close>, two levels down, is selected and
  \<^verbatim>\<open>confusion_matrix.txt\<close> is not. (A subdirectory with such a name is selected too.)
\<close>

theorem scanner_selects_suffix:
  assumes "dirs w directory = Some entries"
  shows "csv_files_of w directory
           = map fst (filter (\<lambda>(p, e). suffix ''confusion_matrix.csv'' (entry_name e))
               (entries_below directory entries)) \<and>
         set (csv_files_of w directory)
           = {p. \<exists>e. (p, e) \<in> set (entries_below directory entries) \<and>
                      suffix ''confusion_matrix.csv'' (entry_name e)} \<and>
         plot_all_confusion_matrices lib w directory
           = (if csv_files_of w directory = []
              then w\<lparr>stdout := stdout w @ [NoFilesFound directory]\<rparr>
              else plot_each lib
                     (w\<lparr>stdout := stdout w @ [FoundFiles (length (csv_files_of w directory))]\<rparr>)
                     (csv_files_of w directory))"
proof (intro conjI)
  show eq: "csv_files_of w directory
           = map fst (filter (\<lambda>(p, e). suffix ''confusion_matrix.csv'' (entry_name e))
               (entries_below directory entries))"
    using assms by (rule csv_files_of_eq)
  show "set (csv_files_of w directory)
           = {p. \<exists>e. (p, e) \<in> set (entries_below directory entries) \<and>
                      suffix ''confusion_matrix.csv'' (entry_name e)}"
    unfolding eq by force
  show "plot_all_confusion_matrices lib w directory
           = (if csv_files_of w directory = []
              then w\<lparr>stdout := stdout w @ [NoFilesFound directory]\<rparr>
              else plot_each lib
                     (w\<lparr>stdout := stdout w @ [FoundFiles (length (csv_files_of w directory))]\<rparr>)
                     (csv_files_of w directory))"
    by (simp add: plot_all_confusion_matrices_def Let_def)
qed

theorem scanner_selects_suffix_witness:
  "csv_files_of
     \<lparr>files = Map.empty, open_error = FileNotFoundError,
      dirs = [''results'' \<mapsto>
        [File ''notes.txt'',
         Dir ''j48'' [File ''confusion_matrix.csv'', Dir ''old'' [File ''my_confusion_matrix.csv'']],
         File ''confusion_matrix.txt'']],
      stdout = []\<rparr> ''results''
   = [''results/j48/confusion_matrix.csv'', ''results/j48/old/my_confusion_matrix.csv'']"
proof -
  let ?entries = "[File ''notes.txt'',
         Dir ''j48'' [File ''confusion_matrix.csv'', Dir ''old'' [File ''my_confusion_matrix.csv'']],
         File ''confusion_matrix.txt'']"
  let ?w = "\<lparr>files = Map.empty, open_error = FileNotFoundError,
      dirs = [''results'' \<mapsto> ?entries], stdout = []\<rparr>"
  have d: "dirs ?w ''results'' = Some ?entries" by simp
  from scanner_selects_suffix[OF d, of example_library] show ?thesis
    by (simp add: entries_below.simps path_join_def suffix_Cons)
qed

text \<open>
  Claim C6. When the path is a directory below which no entry has a name ending with
  \<^verbatim>\<open>confusion_matrix.csv\<close>, the batch function prints that no file was found and does
  nothing else, and the process ends with status 0; no file is written.
\<close>

theorem no_matching_files:
  assumes "\<not> isfile w directory" and "dirs w directory = Some entries"
    and "\<forall>(p, e) \<in> set (entries_below directory entries).
           \<not> suffix ''confusion_matrix.csv'' (entry_name e)"
    and "1 < length argv" and "argv ! 1 = directory"
  shows "plot_all_confusion_matrices lib w directory
           = w\<lparr>stdout := stdout w @ [NoFilesFound directory]\<rparr> \<and>
         main lib w argv = (w\<lparr>stdout := stdout w @ [NoFilesFound directory]\<rparr>, 0) \<and>
         files (fst (main lib w argv)) = files w"
proof -
  from assms(3) have "filter (\<lambda>(p, e). suffix ''confusion_matrix.csv'' (entry_name e))
      (entries_below directory entries) = []"
    by (auto simp: filter_empty_conv)
  with csv_files_of_eq[OF assms(2)] have none: "csv_files_of w directory = []" by simp
  then have all: "plot_all_confusion_matrices lib w directory
      = w\<lparr>stdout := stdout w @ [NoFilesFound directory]\<rparr>"
    by (simp add: plot_all_confusion_matrices_def)
  from assms(2) have "isdir w directory" by (simp add: isdir_def)
  with assms(1,4,5) all
  have "main lib w argv = (w\<lparr>stdout := stdout w @ [NoFilesFound directory]\<rparr>, 0)"
    by (simp add: main_def)
  with all show ?thesis by simp
qed

theorem no_matching_files_witness:
  "main example_library
     \<lparr>files = Map.empty, open_error = FileNotFoundError,
      dirs = [''results'' \<mapsto> [File ''notes.txt'', Dir ''j48'' [File ''confusion_matrix.txt'']]],
      stdout = []\<rparr>
     [''plot_confusion_matrix.py'', ''results'']
   = (\<lparr>files = Map.empty, open_error = FileNotFoundError,
       dirs = [''results'' \<mapsto> [File ''notes.txt'', Dir ''j48'' [File ''confusion_matrix.txt'']]],
       stdout = [NoFilesFound ''results'']\<rparr>, 0)"
  using no_matching_files[of "\<lparr>files = Map.empty, open_error = FileNotFoundError,
      dirs = [''results'' \<mapsto> [File ''notes.txt'', Dir ''j48'' [File ''confusion_matrix.txt'']]],
      stdout = []\<rparr>" "''results''" "[File ''notes.txt'', Dir ''j48'' [File ''confusion_matrix.txt'']]"
      "[''plot_confusion_matrix.py'', ''results'']" example_library]
  by (simp add: isfile_def entries_below.simps path_join_def suffix_Cons)











end
